theory Spec2Isabelle
  imports Complex_Main "HOL-Library.Char_ord" "HOL-Library.List_Lexorder"
begin

section \<open>Order query pipeline and status update of OrdersService\<close>

text \<open>
  A shallow embedding of \<^verbatim>\<open>backend/src/orders/orders.service.ts\<close> (the class
  \<^verbatim>\<open>OrdersService\<close>) and of the handler \<^verbatim>\<open>OrdersController.findAllWithFilters\<close>.

  Conventions of the embedding:
  \<^item> a JavaScript \<^verbatim>\<open>Date\<close> is its \<^verbatim>\<open>getTime()\<close> value, an integer number of
    milliseconds since the epoch (negative before 1970); stored orders hold valid dates;
  \<^item> a JavaScript \<^verbatim>\<open>number\<close> that counts something (quantity, page, pageSize) is an
    \<open>int\<close>; the one place where the source can leave the integers
    (\<^verbatim>\<open>Math.ceil(totalCount / pageSize)\<close> with \<^verbatim>\<open>pageSize\<close> 0) has its own result type;
  \<^item> the TypeScript unions \<^verbatim>\<open>BloodType\<close> and \<^verbatim>\<open>OrderStatus\<close> are strings: the
    source casts unchecked strings to them (\<^verbatim>\<open>status as OrderStatus\<close>,
    \<^verbatim>\<open>split(',') as BloodType[]\<close>), so any string can occur at run time;
  \<^item> strings are \<open>string\<close>: a \<open>char\<close> stands for a code unit (those below 256), and
    strings are compared by code as JavaScript compares code units;
  \<^item> an optional field (\<^verbatim>\<open>x?: T\<close>, \<^verbatim>\<open>T | null\<close>) is an \<open>option\<close>;
  \<^item> the private array \<^verbatim>\<open>this.orders\<close> and the events sent through the gateway
    are fields of an explicit service state.
\<close>

subsection \<open>Data model\<close>

type_synonym BloodType = string
type_synonym OrderStatus = string
type_synonym timestamp = int

record BloodBankInfo =
  bb_id :: string
  bb_name :: string
  bb_location :: string

record HospitalInfo =
  hosp_id :: string
  hosp_name :: string
  hosp_location :: string

record RiderInfo =
  rider_id :: string
  rider_name :: string
  rider_phone :: string

record Order =
  order_id :: string
  bloodType :: BloodType
  quantity :: int
  bloodBank :: BloodBankInfo
  hospital :: HospitalInfo
  status :: OrderStatus
  rider :: "RiderInfo option"
  placedAt :: timestamp
  deliveredAt :: "timestamp option"
  confirmedAt :: "timestamp option"
  cancelledAt :: "timestamp option"
  createdAt :: timestamp
  updatedAt :: timestamp

text \<open>
  \<^verbatim>\<open>OrderQueryParamsDto\<close>, as \<^verbatim>\<open>findAllWithFilters\<close> destructures it. The field
  \<^verbatim>\<open>bloodBank\<close> of the DTO is named \<open>bloodBankSearch\<close> here, since \<open>bloodBank\<close> is
  already the field of an order.
\<close>

record OrderQueryParamsDto =
  hospitalId :: string
  startDate :: "string option"
  endDate :: "string option"
  bloodTypes :: "string option"
  statuses :: "string option"
  bloodBankSearch :: "string option"
  sortBy :: "string option"
  sortOrder :: "string option"
  page :: "int option"
  pageSize :: "int option"

text \<open>
  The value of \<^verbatim>\<open>Math.ceil(totalCount / pageSize)\<close>: an integer, or one of the two
  non-finite numbers a division by zero produces.
\<close>

datatype js_number = Finite int | Infinity | NaN

record Pagination =
  currentPage :: int
  pageSize' :: int
  totalCount :: int
  totalPages :: js_number

record OrdersResponseDto =
  data :: "Order list"
  pagination :: Pagination

subsection \<open>JavaScript built-ins used by the service\<close>

text \<open>Truthiness of an optional string: \<^verbatim>\<open>undefined\<close> and \<^verbatim>\<open>''\<close> are falsy.\<close>

definition truthy :: "string option \<Rightarrow> bool" where
  "truthy s = (case s of None \<Rightarrow> False | Some v \<Rightarrow> v \<noteq> [])"

text \<open>
  \<^verbatim>\<open>new Date(s)\<close> for a string \<open>s\<close> is a parameter \<open>parseDate\<close> of the model: \<open>None\<close> is
  the invalid date, whose time value is \<^verbatim>\<open>NaN\<close>. A comparison with \<^verbatim>\<open>NaN\<close> is false.
\<close>

definition date_ge :: "timestamp \<Rightarrow> timestamp option \<Rightarrow> bool" where
  "date_ge t bound = (case bound of None \<Rightarrow> False | Some b \<Rightarrow> b \<le> t)"

definition date_le :: "timestamp \<Rightarrow> timestamp option \<Rightarrow> bool" where
  "date_le t bound = (case bound of None \<Rightarrow> False | Some b \<Rightarrow> t \<le> b)"

definition date_gt :: "timestamp option \<Rightarrow> timestamp option \<Rightarrow> bool" where
  "date_gt a b = (case (a, b) of (Some x, Some y) \<Rightarrow> y < x | _ \<Rightarrow> False)"

text \<open>\<^verbatim>\<open>String.prototype.split(sep)\<close> for a one-character separator.\<close>

fun split :: "char \<Rightarrow> string \<Rightarrow> string list" where
  "split sep [] = [[]]"
| "split sep (c # cs) =
     (if c = sep then [] # split sep cs
      else (case split sep cs of [] \<Rightarrow> [[c]] | w # ws \<Rightarrow> (c # w) # ws))"

text \<open>
  \<^verbatim>\<open>String.prototype.toLowerCase\<close> is a parameter \<open>toLower\<close> of the model, as the date
  parser is: the case mapping of the Unicode character database is not modelled, and
  every statement below holds for whatever the mapping is.
\<close>

text \<open>\<^verbatim>\<open>String.prototype.includes\<close>: the needle occurs as a contiguous substring.\<close>

fun startsWith :: "string \<Rightarrow> string \<Rightarrow> bool" where
  "startsWith s [] = True"
| "startsWith [] (n # ns) = False"
| "startsWith (c # cs) (n # ns) = (c = n \<and> startsWith cs ns)"

fun includes' :: "string \<Rightarrow> string \<Rightarrow> bool" where
  "includes' [] needle = (needle = [])"
| "includes' (c # cs) needle = (startsWith (c # cs) needle \<or> includes' cs needle)"

text \<open>
  \<^verbatim>\<open>Array.prototype.slice(start, end)\<close> with integer arguments: a negative index
  counts from the end, and both indices are clamped to the array.
\<close>

definition slice :: "'a list \<Rightarrow> int \<Rightarrow> int \<Rightarrow> 'a list" where
  "slice xs start end' =
     (let len = int (length xs);
          k = (if start < 0 then max (len + start) 0 else min start len);
          final = (if end' < 0 then max (len + end') 0 else min end' len)
      in take (nat (final - k)) (drop (nat k) xs))"

text \<open>
  \<^verbatim>\<open>Array.prototype.sort(compareFn)\<close>. ECMAScript requires the result to be a
  permutation of the array, to be stable and, for a consistent comparator, to be ordered
  by it; these conditions fix the result, and the stable insertion sort below computes
  it (lemmas \<open>count_list_sort'\<close>, \<open>sort'_stable\<close> and \<open>sorted_wrt_sort'\<close>). An element
  goes before the first element it does not compare greater than, so elements that
  compare equal keep their order. The comparator of the service is consistent (lemmas
  \<open>compareOrders_trans\<close> and \<open>compareOrders_total\<close>).
\<close>

fun insertBy :: "('a \<Rightarrow> 'a \<Rightarrow> int) \<Rightarrow> 'a \<Rightarrow> 'a list \<Rightarrow> 'a list" where
  "insertBy cmp x [] = [x]"
| "insertBy cmp x (y # ys) = (if cmp x y \<le> 0 then x # y # ys else y # insertBy cmp x ys)"

fun sort' :: "('a \<Rightarrow> 'a \<Rightarrow> int) \<Rightarrow> 'a list \<Rightarrow> 'a list" where
  "sort' cmp [] = []"
| "sort' cmp (x # xs) = insertBy cmp x (sort' cmp xs)"

text \<open>
  \<^verbatim>\<open>Math.ceil(a / b)\<close> for integers \<open>a\<close>, \<open>b\<close>: the quotient is a real number, and a
  division by zero gives \<^verbatim>\<open>NaN\<close> (for \<open>0 / 0\<close>) or an infinity.
\<close>

definition ceilDiv :: "int \<Rightarrow> int \<Rightarrow> js_number" where
  "ceilDiv a b =
     (if b = 0 then (if a = 0 then NaN else Infinity)
      else Finite \<lceil>real_of_int a / real_of_int b\<rceil>)"

subsection \<open>The sort key and the comparator\<close>

text \<open>
  \<^verbatim>\<open>getSortValue\<close> returns \<^verbatim>\<open>any\<close>: a string or a number, depending on the column.
  The operators \<^verbatim>\<open><\<close> and \<^verbatim>\<open>>\<close> compare two strings by code units and two numbers
  numerically. For one \<open>sortBy\<close> every order gives a value of the same kind
  (lemma \<open>getSortValue_same_kind\<close>), so the mixed case is never evaluated.
\<close>

datatype sort_value = Str string | Num int

fun js_lt :: "sort_value \<Rightarrow> sort_value \<Rightarrow> bool" where
  "js_lt (Str a) (Str b) = (a < b)"
| "js_lt (Num a) (Num b) = (a < b)"
| "js_lt _ _ = False"

definition js_gt :: "sort_value \<Rightarrow> sort_value \<Rightarrow> bool" where
  "js_gt a b = js_lt b a"

definition getSortValue :: "Order \<Rightarrow> string \<Rightarrow> sort_value" where
  "getSortValue order sortBy' =
     (if sortBy' = ''id'' then Str (order_id order)
      else if sortBy' = ''bloodType'' then Str (bloodType order)
      else if sortBy' = ''quantity'' then Num (quantity order)
      else if sortBy' = ''bloodBank'' then Str (bb_name (bloodBank order))
      else if sortBy' = ''status'' then Str (status order)
      else if sortBy' = ''rider'' then
        Str (case rider order of None \<Rightarrow> [] | Some r \<Rightarrow> rider_name r)
      else if sortBy' = ''placedAt'' then Num (placedAt order)
      else if sortBy' = ''deliveredAt'' then
        Num (case deliveredAt order of None \<Rightarrow> 0 | Some t \<Rightarrow> t)
      else Num (placedAt order))"

definition activeStatuses :: "OrderStatus list" where
  "activeStatuses = [''pending'', ''confirmed'', ''in_transit'']"

definition isActive :: "Order \<Rightarrow> bool" where
  "isActive order = (status order \<in> set activeStatuses)"

text \<open>The arrow function passed to \<^verbatim>\<open>filteredOrders.sort\<close> (lines 85 to 100).\<close>

definition compareOrders :: "string \<Rightarrow> string \<Rightarrow> Order \<Rightarrow> Order \<Rightarrow> int" where
  "compareOrders sortBy' sortOrder' a b =
     (let aIsActive = isActive a; bIsActive = isActive b in
      if aIsActive \<and> \<not> bIsActive then - 1
      else if \<not> aIsActive \<and> bIsActive then 1
      else
        (let aValue = getSortValue a sortBy'; bValue = getSortValue b sortBy' in
         if js_lt aValue bValue then (if sortOrder' = ''asc'' then - 1 else 1)
         else if js_gt aValue bValue then (if sortOrder' = ''asc'' then 1 else - 1)
         else 0))"

subsection \<open>findAllWithFilters\<close>

text \<open>Defaults of the destructuring assignment (lines 26 to 37).\<close>

definition sortByOf :: "OrderQueryParamsDto \<Rightarrow> string" where
  "sortByOf params = (case sortBy params of None \<Rightarrow> ''placedAt'' | Some c \<Rightarrow> c)"

definition sortOrderOf :: "OrderQueryParamsDto \<Rightarrow> string" where
  "sortOrderOf params = (case sortOrder params of None \<Rightarrow> ''desc'' | Some d \<Rightarrow> d)"

definition pageOf :: "OrderQueryParamsDto \<Rightarrow> int" where
  "pageOf params = (case page params of None \<Rightarrow> 1 | Some n \<Rightarrow> n)"

definition pageSizeOf :: "OrderQueryParamsDto \<Rightarrow> int" where
  "pageSizeOf params = (case pageSize params of None \<Rightarrow> 25 | Some n \<Rightarrow> n)"

text \<open>Lines 40 to 81: the hospital scope first, then one filter after the other.\<close>

definition filterOrders ::
  "(string \<Rightarrow> timestamp option) \<Rightarrow> (string \<Rightarrow> string) \<Rightarrow> Order list \<Rightarrow> OrderQueryParamsDto \<Rightarrow> Order list" where
  "filterOrders parseDate toLower orders params =
     (let f0 = filter (\<lambda>order. hosp_id (hospital order) = hospitalId params) orders;
          f1 = (case startDate params of
                  None \<Rightarrow> f0
                | Some s \<Rightarrow>
                    if s = [] then f0
                    else filter (\<lambda>order. date_ge (placedAt order) (parseDate s)) f0);
          f2 = (case endDate params of
                  None \<Rightarrow> f1
                | Some e \<Rightarrow>
                    if e = [] then f1
                    else filter (\<lambda>order. date_le (placedAt order) (parseDate e)) f1);
          f3 = (case bloodTypes params of
                  None \<Rightarrow> f2
                | Some bs \<Rightarrow>
                    if bs = [] then f2
                    else filter (\<lambda>order. bloodType order \<in> set (split CHR '','' bs)) f2);
          f4 = (case statuses params of
                  None \<Rightarrow> f3
                | Some ss \<Rightarrow>
                    if ss = [] then f3
                    else filter (\<lambda>order. status order \<in> set (split CHR '','' ss)) f3);
          f5 = (case bloodBankSearch params of
                  None \<Rightarrow> f4
                | Some q \<Rightarrow>
                    if q = [] then f4
                    else filter (\<lambda>order.
                           includes' (toLower (bb_name (bloodBank order))) (toLower q)) f4)
      in f5)"

text \<open>Lines 83 to 100: \<^verbatim>\<open>filteredOrders\<close> after the sort.\<close>

definition filteredSorted ::
  "(string \<Rightarrow> timestamp option) \<Rightarrow> (string \<Rightarrow> string) \<Rightarrow> Order list \<Rightarrow> OrderQueryParamsDto \<Rightarrow> Order list" where
  "filteredSorted parseDate toLower orders params =
     sort' (compareOrders (sortByOf params) (sortOrderOf params))
       (filterOrders parseDate toLower orders params)"

text \<open>Lines 102 to 119: the pagination and the response.\<close>

definition findAllWithFilters ::
  "(string \<Rightarrow> timestamp option) \<Rightarrow> (string \<Rightarrow> string) \<Rightarrow> Order list \<Rightarrow> OrderQueryParamsDto \<Rightarrow> OrdersResponseDto" where
  "findAllWithFilters parseDate toLower orders params =
     (let filteredOrders = filteredSorted parseDate toLower orders params;
          totalCount = int (length filteredOrders);
          totalPages = ceilDiv totalCount (pageSizeOf params);
          startIndex = (pageOf params - 1) * pageSizeOf params;
          endIndex = startIndex + pageSizeOf params;
          paginatedOrders = slice filteredOrders startIndex endIndex
      in \<lparr> data = paginatedOrders,
           pagination = \<lparr> currentPage = pageOf params,
                          pageSize' = pageSizeOf params,
                          totalCount = totalCount,
                          totalPages = totalPages \<rparr> \<rparr>)"

subsection \<open>updateStatus\<close>

text \<open>
  The payload of \<^verbatim>\<open>ordersGateway.emitOrderUpdate(hospitalId, payload)\<close>. The gateway
  is a collaborator of the service: the model records each call, oldest first.
\<close>

record OrderUpdate =
  upd_id :: string
  upd_status :: OrderStatus
  upd_rider :: "RiderInfo option"
  upd_updatedAt :: timestamp
  upd_deliveredAt :: "timestamp option"

record OrdersService =
  orders :: "Order list"
  emitted :: "(string \<times> OrderUpdate) list"

text \<open>The two shapes of \<^verbatim>\<open>data\<close> in the object \<^verbatim>\<open>updateStatus\<close> returns.\<close>

datatype status_data = UpdatedOrder Order | IdAndStatus string string

record StatusResponse =
  message :: string
  status_data :: status_data

text \<open>\<^verbatim>\<open>Array.prototype.findIndex\<close>; the result \<open>-1\<close> of the source is \<open>None\<close>.\<close>

fun findIndex :: "('a \<Rightarrow> bool) \<Rightarrow> 'a list \<Rightarrow> nat option" where
  "findIndex P [] = None"
| "findIndex P (x # xs) = (if P x then Some 0 else map_option Suc (findIndex P xs))"

text \<open>
  Lines 177 to 214. The argument \<open>now\<close> is the value of \<^verbatim>\<open>new Date()\<close> at the call.
\<close>

definition updateStatus ::
  "timestamp \<Rightarrow> string \<Rightarrow> string \<Rightarrow> OrdersService \<Rightarrow> StatusResponse \<times> OrdersService" where
  "updateStatus now id' status' svc =
     (case findIndex (\<lambda>order. order_id order = id') (orders svc) of
        Some orderIndex \<Rightarrow>
          (let order = orders svc ! orderIndex;
               updatedOrder = order\<lparr> status := status', updatedAt := now \<rparr>;
               svc1 = svc\<lparr> orders := (orders svc)[orderIndex := updatedOrder] \<rparr>;
               svc2 = svc1\<lparr> emitted := emitted svc1 @
                        [(hosp_id (hospital order),
                          \<lparr> upd_id = order_id updatedOrder,
                            upd_status = status updatedOrder,
                            upd_rider = rider updatedOrder,
                            upd_updatedAt = updatedAt updatedOrder,
                            upd_deliveredAt = deliveredAt updatedOrder \<rparr>)] \<rparr>
           in (\<lparr> message = ''Order status updated successfully'',
                 status_data = UpdatedOrder updatedOrder \<rparr>, svc2))
      | None \<Rightarrow>
          (\<lparr> message = ''Order status updated successfully'',
             status_data = IdAndStatus id' status' \<rparr>, svc))"

subsection \<open>The controller in front of findAllWithFilters\<close>

text \<open>
  \<^verbatim>\<open>BadRequestException\<close>: the message and, for the validation pipe, the list of
  offending fields.
\<close>

datatype error = BadRequestException string "string list"

definition sortColumns :: "string list" where
  "sortColumns = [''id'', ''bloodType'', ''quantity'', ''bloodBank'', ''status'', ''rider'',
                  ''placedAt'', ''deliveredAt'']"

text \<open>
  Modelled from the spec: the validation that the \<^verbatim>\<open>ValidationPipe\<close> of the controller
  runs on \<^verbatim>\<open>OrderQueryParamsDto\<close>. The class
  (\<^verbatim>\<open>backend/src/orders/dto/order-query-params.dto.ts\<close>) with its class-validator
  decorators is not among the sources. Following the spec, a page size outside
  25, 50, 100, a page below 1 and a sort column that is none of the columns of
  \<^verbatim>\<open>getSortValue\<close> are validation errors, each naming its field; absent fields take
  their defaults and are valid.
\<close>

definition validateDto :: "OrderQueryParamsDto \<Rightarrow> string list" where
  "validateDto params =
     (case pageSize params of
        None \<Rightarrow> []
      | Some n \<Rightarrow> if n \<in> {25, 50, 100} then [] else [''pageSize'']) @
     (case page params of
        None \<Rightarrow> []
      | Some n \<Rightarrow> if n < 1 then [''page''] else []) @
     (case sortBy params of
        None \<Rightarrow> []
      | Some c \<Rightarrow> if c \<in> set sortColumns then [] else [''sortBy''])"

text \<open>
  \<^verbatim>\<open>OrdersController.findAllWithFilters\<close>: the pipe, then the check of the date
  range, then the service. A thrown exception is the left summand.
\<close>

definition getOrders ::
  "(string \<Rightarrow> timestamp option) \<Rightarrow> (string \<Rightarrow> string) \<Rightarrow> Order list \<Rightarrow> OrderQueryParamsDto \<Rightarrow>
   error + OrdersResponseDto" where
  "getOrders parseDate toLower orders' params =
     (let messages = validateDto params in
      if messages \<noteq> [] then Inl (BadRequestException ''Invalid query parameters'' messages)
      else
        (case (startDate params, endDate params) of
           (Some s, Some e) \<Rightarrow>
             if s \<noteq> [] \<and> e \<noteq> [] \<and> date_gt (parseDate s) (parseDate e)
             then Inl (BadRequestException
                         ''startDate must be before or equal to endDate'' [])
             else Inr (findAllWithFilters parseDate toLower orders' params)
         | _ \<Rightarrow> Inr (findAllWithFilters parseDate toLower orders' params)))"

subsection \<open>Example data\<close>

definition exampleOrder ::
  "string \<Rightarrow> string \<Rightarrow> OrderStatus \<Rightarrow> timestamp \<Rightarrow> timestamp option \<Rightarrow> Order" where
  "exampleOrder i h st placed delivered =
     \<lparr> order_id = i, bloodType = ''A+'', quantity = 2,
       bloodBank = \<lparr> bb_id = ''BB-001'', bb_name = ''Central Blood Bank'',
                     bb_location = ''Lagos'' \<rparr>,
       hospital = \<lparr> hosp_id = h, hosp_name = ''General Hospital'',
                    hosp_location = ''Ikeja'' \<rparr>,
       status = st, rider = None, placedAt = placed, deliveredAt = delivered,
       confirmedAt = None, cancelledAt = None, createdAt = placed, updatedAt = placed \<rparr>"

definition exampleQuery :: "string \<Rightarrow> OrderQueryParamsDto" where
  "exampleQuery h =
     \<lparr> hospitalId = h, startDate = None, endDate = None, bloodTypes = None,
       statuses = None, bloodBankSearch = None, sortBy = None, sortOrder = None,
       page = None, pageSize = None \<rparr>"

text \<open>A date parser for the examples: it knows two days of January 2024.\<close>

definition exampleParse :: "string \<Rightarrow> timestamp option" where
  "exampleParse s =
     (if s = ''2024-01-01'' then Some 1704067200000
      else if s = ''2024-01-02'' then Some 1704153600000
      else None)"

text \<open>
  A lower-casing for the examples, whose strings are ASCII: there
  \<^verbatim>\<open>toLowerCase\<close> changes the letters A to Z and nothing else.
\<close>

definition exampleLowerChar :: "char \<Rightarrow> char" where
  "exampleLowerChar c =
     (if CHR ''A'' \<le> c \<and> c \<le> CHR ''Z'' then char_of (of_char c + (32::nat)) else c)"

definition exampleLower :: "string \<Rightarrow> string" where
  "exampleLower s = map exampleLowerChar s"

definition orderO1 :: Order where
  "orderO1 = exampleOrder ''O1'' ''H1'' ''pending'' 1704153600000 None"

definition orderO2 :: Order where
  "orderO2 = exampleOrder ''O2'' ''H1'' ''delivered'' 1704067200000 (Some 1704070800000)"

definition orderO3 :: Order where
  "orderO3 = exampleOrder ''O3'' ''H2'' ''pending'' 1704153600000 None"

definition orderO4 :: Order where
  "orderO4 = exampleOrder ''O4'' ''H1'' ''confirmed'' 1704070800000 None"

definition orderO5 :: Order where
  "orderO5 = exampleOrder ''O5'' ''H1'' ''cancelled'' 1704067200000 None"

definition exampleStore :: "Order list" where
  "exampleStore = [orderO2, orderO4, orderO1, orderO3]"

definition completedStore :: "Order list" where
  "completedStore = [orderO2, orderO5]"

text \<open>
  Two completed orders of one hospital: the first was delivered one millisecond before
  the epoch, the second was cancelled and never delivered.
\<close>

definition orderE1 :: Order where
  "orderE1 = exampleOrder ''E1'' ''H1'' ''delivered'' (- 3600000) (Some (- 1))"

definition orderE2 :: Order where
  "orderE2 = exampleOrder ''E2'' ''H1'' ''cancelled'' (- 3600000) None"

definition epochStore :: "Order list" where
  "epochStore = [orderE1, orderE2]"

text \<open>Two active orders of one hospital with different quantities.\<close>

definition orderQ1 :: Order where
  "orderQ1 = orderO1\<lparr> quantity := 7 \<rparr>"

definition orderQ4 :: Order where
  "orderQ4 = orderO4\<lparr> quantity := 3 \<rparr>"

definition quantityStore :: "Order list" where
  "quantityStore = [orderQ1, orderQ4]"

definition exampleService :: OrdersService where
  "exampleService = \<lparr> orders = exampleStore, emitted = [] \<rparr>"

text \<open>A query with every filter set.\<close>

definition filterQuery :: OrderQueryParamsDto where
  "filterQuery = (exampleQuery ''H1'')
     \<lparr> startDate := Some ''2024-01-01'', endDate := Some ''2024-01-02'',
       bloodTypes := Some ''A+,O-'', statuses := Some ''pending,confirmed'',
       bloodBankSearch := Some ''BLOOD'' \<rparr>"

lemmas example_defs =
  exampleOrder_def exampleQuery_def exampleParse_def exampleStore_def epochStore_def
  completedStore_def orderO1_def orderO2_def orderO3_def orderO4_def orderO5_def
  orderE1_def orderE2_def exampleService_def

lemmas quantity_defs = orderQ1_def orderQ4_def quantityStore_def

lemmas pipeline_defs =
  findAllWithFilters_def filteredSorted_def filterOrders_def sortByOf_def sortOrderOf_def
  pageOf_def pageSizeOf_def compareOrders_def isActive_def activeStatuses_def
  getSortValue_def js_gt_def slice_def ceilDiv_def Let_def

subsection \<open>Basic facts about the built-ins\<close>

lemma set_insertBy: "set (insertBy cmp x xs) = insert x (set xs)"
  by (induction xs) auto

lemma set_sort': "set (sort' cmp xs) = set xs"
  by (induction xs) (auto simp: set_insertBy)

lemma length_insertBy: "length (insertBy cmp x xs) = Suc (length xs)"
  by (induction xs) auto

lemma length_sort': "length (sort' cmp xs) = length xs"
  by (induction xs) (auto simp: length_insertBy)

lemma set_slice: "set (slice xs a b) \<subseteq> set xs"
  unfolding slice_def Let_def
  by (meson set_take_subset set_drop_subset subset_trans)

lemma filterOrders_hospital:
  "order \<in> set (filterOrders parseDate toLower orders' params) \<Longrightarrow>
   hosp_id (hospital order) = hospitalId params"
  by (auto simp: filterOrders_def Let_def split: option.splits if_splits)

lemma data_subset_filteredSorted:
  "set (data (findAllWithFilters parseDate toLower orders' params)) \<subseteq>
   set (filteredSorted parseDate toLower orders' params)"
  by (simp add: findAllWithFilters_def Let_def set_slice)

subsection \<open>The sort orders by the comparator\<close>

lemma sorted_wrt_insertBy:
  assumes tr: "\<And>a b c. cmp a b \<le> 0 \<Longrightarrow> cmp b c \<le> 0 \<Longrightarrow> cmp a c \<le> 0"
    and tot: "\<And>a b. cmp a b \<le> 0 \<or> cmp b a \<le> 0"
    and srt: "sorted_wrt (\<lambda>a b. cmp a b \<le> 0) ys"
  shows "sorted_wrt (\<lambda>a b. cmp a b \<le> 0) (insertBy cmp x ys)"
  using srt
proof (induction ys)
  case Nil
  then show ?case by simp
next
  case (Cons y ys)
  show ?case
  proof (cases "cmp x y \<le> 0")
    case True
    have "cmp x z \<le> 0" if "z \<in> set ys" for z
      using Cons.prems that True tr by auto
    with True Cons.prems show ?thesis by simp
  next
    case False
    then have "cmp y x \<le> 0" using tot [of x y] by simp
    with False Cons show ?thesis by (auto simp: set_insertBy)
  qed
qed

lemma sorted_wrt_sort':
  assumes "\<And>a b c. cmp a b \<le> 0 \<Longrightarrow> cmp b c \<le> 0 \<Longrightarrow> cmp a c \<le> 0"
    and "\<And>a b. cmp a b \<le> 0 \<or> cmp b a \<le> 0"
  shows "sorted_wrt (\<lambda>a b. cmp a b \<le> 0) (sort' cmp xs)"
  by (induction xs) (simp_all add: sorted_wrt_insertBy assms)

lemma count_list_insertBy:
  "count_list (insertBy cmp x xs) y = count_list (x # xs) y"
  by (induction xs) auto

lemma count_list_sort': "count_list (sort' cmp xs) y = count_list xs y"
  by (induction xs) (simp_all add: count_list_insertBy)

lemma filter_insertBy_equiv:
  assumes tr: "\<And>a b c. cmp a b \<le> 0 \<Longrightarrow> cmp b c \<le> 0 \<Longrightarrow> cmp a c \<le> 0"
  shows "filter (\<lambda>y. cmp y k \<le> 0 \<and> cmp k y \<le> 0) (insertBy cmp x ys) =
         filter (\<lambda>y. cmp y k \<le> 0 \<and> cmp k y \<le> 0) (x # ys)"
proof (induction ys)
  case Nil
  show ?case by simp
next
  case (Cons y ys)
  show ?case
  proof (cases "cmp x y \<le> 0")
    case True
    then show ?thesis by simp
  next
    case False
    then have "\<not> (cmp x k \<le> 0 \<and> cmp k y \<le> 0)" using tr by blast
    with False Cons.IH show ?thesis by auto
  qed
qed

lemma sort'_stable:
  assumes "\<And>a b c. cmp a b \<le> 0 \<Longrightarrow> cmp b c \<le> 0 \<Longrightarrow> cmp a c \<le> 0"
  shows "filter (\<lambda>y. cmp y k \<le> 0 \<and> cmp k y \<le> 0) (sort' cmp xs) =
         filter (\<lambda>y. cmp y k \<le> 0 \<and> cmp k y \<le> 0) xs"
proof (induction xs)
  case Nil
  show ?case by simp
next
  case (Cons x xs)
  have "filter (\<lambda>y. cmp y k \<le> 0 \<and> cmp k y \<le> 0) (sort' cmp (x # xs)) =
        filter (\<lambda>y. cmp y k \<le> 0 \<and> cmp k y \<le> 0) (x # sort' cmp xs)"
    using filter_insertBy_equiv [of cmp k x "sort' cmp xs"] assms by simp
  with Cons.IH show ?case by simp
qed

lemma sorted_wrt_slice: "sorted_wrt P xs \<Longrightarrow> sorted_wrt P (slice xs a b)"
  unfolding slice_def Let_def by (intro sorted_wrt_take sorted_wrt_drop)

subsection \<open>The comparator is consistent\<close>

lemma js_lt_asym: "js_lt a b \<Longrightarrow> \<not> js_lt b a"
  by (cases a; cases b) auto

lemma getSortValue_same_kind:
  "(\<exists>s t. getSortValue a c = Str s \<and> getSortValue b c = Str t) \<or>
   (\<exists>m n. getSortValue a c = Num m \<and> getSortValue b c = Num n)"
  by (simp add: getSortValue_def)

lemma compareOrders_le_iff:
  "compareOrders c d a b \<le> 0 \<longleftrightarrow>
     (isActive a \<and> \<not> isActive b) \<or>
     (isActive a = isActive b \<and>
      (if d = ''asc'' then \<not> js_lt (getSortValue b c) (getSortValue a c)
       else \<not> js_lt (getSortValue a c) (getSortValue b c)))"
  using js_lt_asym [of "getSortValue a c" "getSortValue b c"]
  by (auto simp: compareOrders_def js_gt_def Let_def)

lemma compareOrders_trans:
  assumes "compareOrders c d x y \<le> 0" and "compareOrders c d y z \<le> 0"
  shows "compareOrders c d x z \<le> 0"
  using assms getSortValue_same_kind [of x c y] getSortValue_same_kind [of y c z]
  unfolding compareOrders_le_iff
  by (auto split: if_splits)

lemma compareOrders_total: "compareOrders c d x y \<le> 0 \<or> compareOrders c d y x \<le> 0"
  using getSortValue_same_kind [of x c y]
  unfolding compareOrders_le_iff
  by (auto split: if_splits)

lemma sorted_filteredSorted:
  "sorted_wrt (\<lambda>a b. compareOrders (sortByOf params) (sortOrderOf params) a b \<le> 0)
     (filteredSorted parseDate toLower orders' params)"
  unfolding filteredSorted_def
  proof (rule sorted_wrt_sort')
  show "\<And>a b c. compareOrders (sortByOf params) (sortOrderOf params) a b \<le> 0 \<Longrightarrow> compareOrders (sortByOf params) (sortOrderOf params) b c \<le> 0 \<Longrightarrow> compareOrders (sortByOf params) (sortOrderOf params) a c \<le> 0"
    by (rule compareOrders_trans)
  show "\<And>a b. compareOrders (sortByOf params) (sortOrderOf params) a b \<le> 0 \<or> compareOrders (sortByOf params) (sortOrderOf params) b a \<le> 0"
    by (rule compareOrders_total)
qed

lemma sorted_data:
  "sorted_wrt (\<lambda>a b. compareOrders (sortByOf params) (sortOrderOf params) a b \<le> 0)
     (data (findAllWithFilters parseDate toLower orders' params))"
  by (simp add: findAllWithFilters_def Let_def sorted_wrt_slice sorted_filteredSorted)

lemma data_compare:
  assumes "i < j" and "j < length (data (findAllWithFilters parseDate toLower orders' params))"
  shows "compareOrders (sortByOf params) (sortOrderOf params)
           (data (findAllWithFilters parseDate toLower orders' params) ! i)
           (data (findAllWithFilters parseDate toLower orders' params) ! j) \<le> 0"
  using sorted_data [of params parseDate toLower orders'] assms
  by (simp add: sorted_wrt_iff_nth_less)

subsection \<open>The key of each column\<close>

lemma getSortValue_columns:
  "getSortValue order ''id'' = Str (order_id order)"
  "getSortValue order ''bloodType'' = Str (bloodType order)"
  "getSortValue order ''quantity'' = Num (quantity order)"
  "getSortValue order ''bloodBank'' = Str (bb_name (bloodBank order))"
  "getSortValue order ''status'' = Str (status order)"
  "getSortValue order ''rider'' = Str (case rider order of None \<Rightarrow> [] | Some r \<Rightarrow> rider_name r)"
  "getSortValue order ''placedAt'' = Num (placedAt order)"
  "getSortValue order ''deliveredAt'' = Num (case deliveredAt order of None \<Rightarrow> 0 | Some t \<Rightarrow> t)"
  by (simp_all add: getSortValue_def)

lemma getSortValue_other:
  "c \<notin> {''id'', ''bloodType'', ''quantity'', ''bloodBank'', ''status'', ''rider'', ''deliveredAt''} \<Longrightarrow>
   getSortValue order c = Num (placedAt order)"
  by (simp add: getSortValue_def)

lemma neighbours_ordered:
  assumes "Suc i < length (data (findAllWithFilters parseDate toLower orders' params))"
    and "a = data (findAllWithFilters parseDate toLower orders' params) ! i"
    and "b = data (findAllWithFilters parseDate toLower orders' params) ! Suc i"
  shows "isActive b \<longrightarrow> isActive a"
    and "isActive a = isActive b \<Longrightarrow> sortOrder params = Some ''asc'' \<Longrightarrow>
         \<not> js_lt (getSortValue b (sortByOf params)) (getSortValue a (sortByOf params))"
    and "isActive a = isActive b \<Longrightarrow> sortOrder params \<noteq> Some ''asc'' \<Longrightarrow>
         \<not> js_lt (getSortValue a (sortByOf params)) (getSortValue b (sortByOf params))"
proof -
  have "i < Suc i" by simp
  from data_compare [OF this assms(1)] assms(2,3)
  have c: "compareOrders (sortByOf params) (sortOrderOf params) a b \<le> 0" by simp
  show "isActive b \<longrightarrow> isActive a"
    using c by (auto simp: compareOrders_le_iff)
  show "\<not> js_lt (getSortValue b (sortByOf params)) (getSortValue a (sortByOf params))"
    if "isActive a = isActive b" "sortOrder params = Some ''asc''"
    using c that by (simp add: compareOrders_le_iff sortOrderOf_def)
  show "\<not> js_lt (getSortValue a (sortByOf params)) (getSortValue b (sortByOf params))"
    if "isActive a = isActive b" "sortOrder params \<noteq> Some ''asc''"
    using c that by (cases "sortOrder params") (auto simp: compareOrders_le_iff sortOrderOf_def)
qed

subsection \<open>Substring test and the filters\<close>

lemma startsWith_iff: "startsWith s n \<longleftrightarrow> (\<exists>suf. s = n @ suf)"
  by (induction s n rule: startsWith.induct) auto

lemma includes'_iff: "includes' s n \<longleftrightarrow> (\<exists>pre suf. s = pre @ n @ suf)"
proof (induction s)
  case Nil
  then show ?case by auto
next
  case (Cons c cs)
  show ?case
  proof
    assume "includes' (c # cs) n"
    then consider "startsWith (c # cs) n" | "includes' cs n" by auto
    then show "\<exists>pre suf. c # cs = pre @ n @ suf"
    proof cases
      case 1
      then obtain suf where "c # cs = n @ suf" by (auto simp: startsWith_iff)
      then have "c # cs = [] @ n @ suf" by simp
      then show ?thesis by blast
    next
      case 2
      with Cons.IH obtain pre suf where "cs = pre @ n @ suf" by auto
      then have "c # cs = (c # pre) @ n @ suf" by simp
      then show ?thesis by blast
    qed
  next
    assume "\<exists>pre suf. c # cs = pre @ n @ suf"
    then obtain pre suf where e: "c # cs = pre @ n @ suf" by auto
    show "includes' (c # cs) n"
    proof (cases pre)
      case Nil
      with e have "startsWith (c # cs) n" by (auto simp: startsWith_iff)
      then show ?thesis by simp
    next
      case (Cons p ps)
      with e have "cs = ps @ n @ suf" by simp
      with Cons.IH have "includes' cs n" by blast
      then show ?thesis by simp
    qed
  qed
qed

lemma set_filterOrders:
  "order \<in> set (filterOrders parseDate toLower orders' params) \<longleftrightarrow>
     order \<in> set orders' \<and>
     hosp_id (hospital order) = hospitalId params \<and>
     (\<forall>s. startDate params = Some s \<longrightarrow> s \<noteq> [] \<longrightarrow>
          (\<exists>t. parseDate s = Some t \<and> t \<le> placedAt order)) \<and>
     (\<forall>e. endDate params = Some e \<longrightarrow> e \<noteq> [] \<longrightarrow>
          (\<exists>t. parseDate e = Some t \<and> placedAt order \<le> t)) \<and>
     (\<forall>bs. bloodTypes params = Some bs \<longrightarrow> bs \<noteq> [] \<longrightarrow>
          bloodType order \<in> set (split CHR '','' bs)) \<and>
     (\<forall>ss. statuses params = Some ss \<longrightarrow> ss \<noteq> [] \<longrightarrow>
          status order \<in> set (split CHR '','' ss)) \<and>
     (\<forall>q. bloodBankSearch params = Some q \<longrightarrow> q \<noteq> [] \<longrightarrow>
          (\<exists>pre suf. toLower (bb_name (bloodBank order)) = pre @ toLower q @ suf))"
  unfolding filterOrders_def Let_def
  by (cases "startDate params"; cases "endDate params"; cases "bloodTypes params";
      cases "statuses params"; cases "bloodBankSearch params")
     (auto simp: date_ge_def date_le_def includes'_iff split: option.splits)

lemma exampleLower_examples:
  "exampleLower ''BLOOD'' = ''blood''"
  "exampleLower ''Central Blood Bank'' = ''central blood bank''"
  by code_simp+

subsection \<open>Slices and the page count\<close>

lemma slice_nonneg:
  assumes "0 \<le> a" and "0 \<le> b"
  shows "slice xs a b = map (\<lambda>k. xs ! k) [nat a ..< nat (min b (int (length xs)))]"
proof (rule nth_equalityI)
  show "length (slice xs a b) = length (map (\<lambda>k. xs ! k) [nat a ..< nat (min b (int (length xs)))])"
    using assms by (auto simp: slice_def Let_def min_def)
next
  fix i assume "i < length (slice xs a b)"
  then show "slice xs a b ! i = map (\<lambda>k. xs ! k) [nat a ..< nat (min b (int (length xs)))] ! i"
    using assms by (auto simp: slice_def Let_def min_def add.commute split: if_splits)
qed

lemma slice_Nil: "slice [] a b = []"
  by (simp add: slice_def Let_def)

lemma findAllWithFilters_slice:
  assumes "1 \<le> pageOf params" and "0 < pageSizeOf params"
  shows "data (findAllWithFilters parseDate toLower orders' params) =
           map (\<lambda>k. filteredSorted parseDate toLower orders' params ! k)
             [nat ((pageOf params - 1) * pageSizeOf params) ..<
              nat (min (pageOf params * pageSizeOf params)
                       (int (length (filteredSorted parseDate toLower orders' params))))] \<and>
         (int (length (filteredSorted parseDate toLower orders' params))
            \<le> (pageOf params - 1) * pageSizeOf params \<longrightarrow>
          data (findAllWithFilters parseDate toLower orders' params) = []) \<and>
         totalCount (pagination (findAllWithFilters parseDate toLower orders' params)) =
           int (length (filteredSorted parseDate toLower orders' params)) \<and>
         totalPages (pagination (findAllWithFilters parseDate toLower orders' params)) =
           Finite \<lceil>real (length (filteredSorted parseDate toLower orders' params)) /
                   real_of_int (pageSizeOf params)\<rceil>"
proof -
  let ?fs = "filteredSorted parseDate toLower orders' params"
  let ?a = "(pageOf params - 1) * pageSizeOf params"
  have a: "0 \<le> ?a" using assms by simp
  have b: "0 \<le> ?a + pageSizeOf params" using a assms by simp
  have e: "?a + pageSizeOf params = pageOf params * pageSizeOf params"
    by (simp add: algebra_simps)
  have d: "data (findAllWithFilters parseDate toLower orders' params) =
           map (\<lambda>k. ?fs ! k) [nat ?a ..< nat (min (pageOf params * pageSizeOf params) (int (length ?fs)))]"
    using slice_nonneg [OF a b, of ?fs] by (simp add: findAllWithFilters_def Let_def e)
  have "data (findAllWithFilters parseDate toLower orders' params) = []" if "int (length ?fs) \<le> ?a"
    using that a unfolding d by simp
  moreover have "totalCount (pagination (findAllWithFilters parseDate toLower orders' params)) = int (length ?fs)"
    by (simp add: findAllWithFilters_def Let_def)
  moreover have "totalPages (pagination (findAllWithFilters parseDate toLower orders' params)) =
           Finite \<lceil>real (length ?fs) / real_of_int (pageSizeOf params)\<rceil>"
    using assms(2) by (simp add: findAllWithFilters_def Let_def ceilDiv_def)
  ultimately show ?thesis using d by blast
qed

lemma ceiling_bounds:
  fixes a b :: int
  assumes "0 < b"
  shows "(\<lceil>real_of_int a / real_of_int b\<rceil> - 1) * b < a \<and> a \<le> \<lceil>real_of_int a / real_of_int b\<rceil> * b"
proof -
  let ?n = "\<lceil>real_of_int a / real_of_int b\<rceil>"
  have rb: "0 < real_of_int b" using assms by simp
  have lo: "real_of_int ?n - 1 < real_of_int a / real_of_int b" by linarith
  have hi: "real_of_int a / real_of_int b \<le> real_of_int ?n" by linarith
  from lo rb have "(real_of_int ?n - 1) * real_of_int b < real_of_int a"
    by (simp only: pos_less_divide_eq)
  then have l: "real_of_int ((?n - 1) * b) < real_of_int a" by simp
  from hi rb have "real_of_int a \<le> real_of_int ?n * real_of_int b"
    by (simp only: pos_divide_le_eq)
  then have h: "real_of_int a \<le> real_of_int (?n * b)" by simp
  from l h have "(?n - 1) * b < a \<and> a \<le> ?n * b"
    by (simp only: of_int_less_iff of_int_le_iff)
  then show ?thesis .
qed

subsection \<open>The status update\<close>

lemma findIndex_None_iff: "findIndex P xs = None \<longleftrightarrow> (\<forall>x \<in> set xs. \<not> P x)"
  by (induction xs) auto

lemma findIndex_Some:
  "findIndex P xs = Some i \<Longrightarrow> i < length xs \<and> P (xs ! i)"
proof (induction xs arbitrary: i)
  case Nil
  then show ?case by simp
next
  case (Cons x xs)
  show ?case
  proof (cases "P x")
    case True
    with Cons.prems show ?thesis by simp
  next
    case False
    with Cons.prems obtain k where k: "findIndex P xs = Some k" "i = Suc k" by auto
    with Cons.IH [of k] show ?thesis by simp
  qed
qed

lemma map_update_same: "i < length xs \<Longrightarrow> (map f xs)[i := f (xs ! i)] = map f xs"
  by (simp add: list_update_same_conv)

lemma updateStatus_absent:
  assumes "findIndex (\<lambda>order. order_id order = id') (orders svc) = None"
  shows "updateStatus now id' status' svc =
           (\<lparr> message = ''Order status updated successfully'',
              status_data = IdAndStatus id' status' \<rparr>, svc)"
  using assms by (simp add: updateStatus_def)

lemma updateStatus_present:
  assumes "findIndex (\<lambda>order. order_id order = id') (orders svc) = Some i"
  shows "orders (snd (updateStatus now id' status' svc)) =
           (orders svc)[i := (orders svc ! i)\<lparr> status := status', updatedAt := now \<rparr>]"
    and "message (fst (updateStatus now id' status' svc)) = ''Order status updated successfully''"
    and "status_data (fst (updateStatus now id' status' svc)) =
           UpdatedOrder ((orders svc ! i)\<lparr> status := status', updatedAt := now \<rparr>)"
    and "emitted (snd (updateStatus now id' status' svc)) = emitted svc @
           [(hosp_id (hospital (orders svc ! i)),
             \<lparr> upd_id = order_id (orders svc ! i), upd_status = status',
               upd_rider = rider (orders svc ! i), upd_updatedAt = now,
               upd_deliveredAt = deliveredAt (orders svc ! i) \<rparr>)]"
  using assms by (simp_all add: updateStatus_def Let_def)

subsection \<open>Sort columns\<close>

text \<open>The service itself accepts any column name: an unknown one sorts by \<open>placedAt\<close>.\<close>

lemma getSortValue_unknown:
  "c \<notin> set sortColumns \<Longrightarrow> getSortValue order c = Num (placedAt order)"
  by (simp add: sortColumns_def getSortValue_def)

section \<open>The claims\<close>

subsection \<open>Tenant isolation\<close>

text \<open>
  Claim C1. For every stored order collection and every query, every order in the page
  that \<open>findAllWithFilters\<close> returns has the hospital id of the query: no order of another
  hospital is in the result.
\<close>

theorem tenant_isolation:
  assumes "order \<in> set (data (findAllWithFilters parseDate toLower orders' params))"
  shows "hosp_id (hospital order) = hospitalId params"
proof -
  from assms data_subset_filteredSorted
  have "order \<in> set (filteredSorted parseDate toLower orders' params)" by blast
  then have "order \<in> set (filterOrders parseDate toLower orders' params)"
    by (simp add: filteredSorted_def set_sort')
  then show ?thesis by (rule filterOrders_hospital)
qed

theorem tenant_isolation_witness:
  "orderO1 \<in> set (data (findAllWithFilters exampleParse exampleLower exampleStore (exampleQuery ''H1''))) \<and>
   orderO3 \<in> set exampleStore \<and>
   hosp_id (hospital orderO3) = ''H2'' \<and>
   hosp_id (hospital orderO1) = hospitalId (exampleQuery ''H1'')"
proof -
  have m: "orderO1
      \<in> set (data (findAllWithFilters exampleParse exampleLower exampleStore (exampleQuery ''H1'')))"
    by (simp add: pipeline_defs example_defs)
  have s: "orderO3 \<in> set exampleStore \<and> hosp_id (hospital orderO3) = ''H2''"
    by (simp add: example_defs)
  from tenant_isolation [OF m] m s show ?thesis by simp
qed

subsection \<open>Active orders first\<close>

text \<open>
  Claim C2. In every page that \<open>findAllWithFilters\<close> returns, an order with status
  pending, confirmed or in\_transit stands before every order with status delivered or
  cancelled, whatever \<open>sortBy\<close> and \<open>sortOrder\<close> are.
\<close>

theorem active_first:
  assumes "i < length (data (findAllWithFilters parseDate toLower orders' params))"
    and "j < length (data (findAllWithFilters parseDate toLower orders' params))"
    and "status (data (findAllWithFilters parseDate toLower orders' params) ! i)
           \<in> {''pending'', ''confirmed'', ''in_transit''}"
    and "status (data (findAllWithFilters parseDate toLower orders' params) ! j)
           \<in> {''delivered'', ''cancelled''}"
  shows "i < j"
proof (rule ccontr)
  let ?ds = "data (findAllWithFilters parseDate toLower orders' params)"
  assume "\<not> i < j"
  have act: "isActive (?ds ! i)" and nact: "\<not> isActive (?ds ! j)"
    using assms(3,4) by (auto simp: isActive_def activeStatuses_def)
  then have "i \<noteq> j" by auto
  with \<open>\<not> i < j\<close> have "j < i" by simp
  from data_compare [OF this assms(1)] act nact show False
    by (simp add: compareOrders_le_iff)
qed

theorem active_first_witness:
  "data (findAllWithFilters exampleParse exampleLower exampleStore (exampleQuery ''H1''))
     = [orderO1, orderO4, orderO2] \<and>
   status orderO4 = ''confirmed'' \<and> status orderO2 = ''delivered'' \<and> (1::nat) < 2"
proof -
  let ?ds = "data (findAllWithFilters exampleParse exampleLower exampleStore (exampleQuery ''H1''))"
  have d: "?ds = [orderO1, orderO4, orderO2]"
    by (simp add: pipeline_defs example_defs)
  have l1: "1 < length ?ds" and l2: "2 < length ?ds"
    by (simp_all add: d)
  have a: "status (?ds ! 1) \<in> {''pending'', ''confirmed'', ''in_transit''}"
    unfolding d by (simp add: example_defs)
  have b: "status (?ds ! 2) \<in> {''delivered'', ''cancelled''}"
    unfolding d by (simp add: example_defs)
  from active_first [OF l1 l2 a b] show ?thesis
    unfolding d by (simp add: example_defs)
qed

subsection \<open>Sort monotonicity\<close>

text \<open>
  Claim C5. In every page that \<open>findAllWithFilters\<close> returns, take two neighbours \<open>a\<close>,
  \<open>b\<close> of the same partition (both with a status among pending, confirmed, in\_transit,
  or both without). When the request has \<open>sortOrder\<close> \<open>asc\<close>, the field of the requested
  column does not decrease from \<open>a\<close> to \<open>b\<close>; with any other \<open>sortOrder\<close>, or none, it
  does not increase. The field is the order's id, blood type, quantity, blood bank name,
  status, rider name (empty without a rider), \<open>placedAt\<close> or \<open>deliveredAt\<close> (0 when
  absent), and \<open>placedAt\<close> when the request names no column or another one. The
  direction never touches the partition: whatever \<open>sortOrder\<close> is, an active order is
  never the right neighbour of an order that is not active.
\<close>

theorem sort_monotonic:
  assumes "Suc i < length (data (findAllWithFilters parseDate toLower orders' params))"
    and "a = data (findAllWithFilters parseDate toLower orders' params) ! i"
    and "b = data (findAllWithFilters parseDate toLower orders' params) ! Suc i"
  shows "(status b \<in> {''pending'', ''confirmed'', ''in_transit''} \<longrightarrow>
          status a \<in> {''pending'', ''confirmed'', ''in_transit''}) \<and>
         ((status a \<in> {''pending'', ''confirmed'', ''in_transit''}) =
          (status b \<in> {''pending'', ''confirmed'', ''in_transit''}) \<longrightarrow>
          (sortOrder params = Some ''asc'' \<longrightarrow>
             (sortBy params = Some ''id'' \<longrightarrow> order_id a \<le> order_id b) \<and>
             (sortBy params = Some ''bloodType'' \<longrightarrow> bloodType a \<le> bloodType b) \<and>
             (sortBy params = Some ''quantity'' \<longrightarrow> quantity a \<le> quantity b) \<and>
             (sortBy params = Some ''bloodBank'' \<longrightarrow>
                bb_name (bloodBank a) \<le> bb_name (bloodBank b)) \<and>
             (sortBy params = Some ''status'' \<longrightarrow> status a \<le> status b) \<and>
             (sortBy params = Some ''rider'' \<longrightarrow>
                (case rider a of None \<Rightarrow> [] | Some r \<Rightarrow> rider_name r)
                  \<le> (case rider b of None \<Rightarrow> [] | Some r \<Rightarrow> rider_name r)) \<and>
             (sortBy params = Some ''placedAt'' \<longrightarrow> placedAt a \<le> placedAt b) \<and>
             (sortBy params = Some ''deliveredAt'' \<longrightarrow>
                (case deliveredAt a of None \<Rightarrow> 0 | Some t \<Rightarrow> t)
                  \<le> (case deliveredAt b of None \<Rightarrow> 0 | Some t \<Rightarrow> t)) \<and>
             (sortBy params = None \<or>
              (\<exists>c. sortBy params = Some c \<and>
                 c \<notin> {''id'', ''bloodType'', ''quantity'', ''bloodBank'', ''status'', ''rider'',
                       ''deliveredAt''}) \<longrightarrow>
                placedAt a \<le> placedAt b)) \<and>
          (sortOrder params \<noteq> Some ''asc'' \<longrightarrow>
             (sortBy params = Some ''id'' \<longrightarrow> order_id b \<le> order_id a) \<and>
             (sortBy params = Some ''bloodType'' \<longrightarrow> bloodType b \<le> bloodType a) \<and>
             (sortBy params = Some ''quantity'' \<longrightarrow> quantity b \<le> quantity a) \<and>
             (sortBy params = Some ''bloodBank'' \<longrightarrow>
                bb_name (bloodBank b) \<le> bb_name (bloodBank a)) \<and>
             (sortBy params = Some ''status'' \<longrightarrow> status b \<le> status a) \<and>
             (sortBy params = Some ''rider'' \<longrightarrow>
                (case rider b of None \<Rightarrow> [] | Some r \<Rightarrow> rider_name r)
                  \<le> (case rider a of None \<Rightarrow> [] | Some r \<Rightarrow> rider_name r)) \<and>
             (sortBy params = Some ''placedAt'' \<longrightarrow> placedAt b \<le> placedAt a) \<and>
             (sortBy params = Some ''deliveredAt'' \<longrightarrow>
                (case deliveredAt b of None \<Rightarrow> 0 | Some t \<Rightarrow> t)
                  \<le> (case deliveredAt a of None \<Rightarrow> 0 | Some t \<Rightarrow> t)) \<and>
             (sortBy params = None \<or>
              (\<exists>c. sortBy params = Some c \<and>
                 c \<notin> {''id'', ''bloodType'', ''quantity'', ''bloodBank'', ''status'', ''rider'',
                       ''deliveredAt''}) \<longrightarrow>
                placedAt b \<le> placedAt a)))"
proof -
  have act: "isActive x \<longleftrightarrow> status x \<in> {''pending'', ''confirmed'', ''in_transit''}" for x
    by (simp add: isActive_def activeStatuses_def)
  note n = neighbours_ordered [OF assms, unfolded act]
  have other: "getSortValue x (sortByOf params) = Num (placedAt x)"
    if "sortBy params = None \<or>
        (\<exists>c. sortBy params = Some c \<and>
           c \<notin> {''id'', ''bloodType'', ''quantity'', ''bloodBank'', ''status'', ''rider'',
                 ''deliveredAt''})" for x
  proof (cases "sortBy params")
    case None
    then show ?thesis by (simp add: sortByOf_def getSortValue_columns)
  next
    case (Some c)
    with that have "c \<notin> {''id'', ''bloodType'', ''quantity'', ''bloodBank'', ''status'',
                           ''rider'', ''deliveredAt''}" by simp
    from getSortValue_other [OF this] Some show ?thesis by (simp add: sortByOf_def)
  qed
  have col: "sortByOf params = c" if "sortBy params = Some c" for c
    using that by (simp add: sortByOf_def)
  show ?thesis
  proof (intro conjI impI)
    show "status a \<in> {''pending'', ''confirmed'', ''in_transit''}"
      if "status b \<in> {''pending'', ''confirmed'', ''in_transit''}"
      using n(1) that by blast
  next
    assume p: "(status a \<in> {''pending'', ''confirmed'', ''in_transit''}) =
               (status b \<in> {''pending'', ''confirmed'', ''in_transit''})"
       and d: "sortOrder params = Some ''asc''"
    note k = n(2) [OF p d]
    show "sortBy params = Some ''id'' \<Longrightarrow> order_id a \<le> order_id b"
      using k by (simp add: col getSortValue_columns not_less)
    show "sortBy params = Some ''bloodType'' \<Longrightarrow> bloodType a \<le> bloodType b"
      using k by (simp add: col getSortValue_columns not_less)
    show "sortBy params = Some ''quantity'' \<Longrightarrow> quantity a \<le> quantity b"
      using k by (simp add: col getSortValue_columns not_less)
    show "sortBy params = Some ''bloodBank'' \<Longrightarrow> bb_name (bloodBank a) \<le> bb_name (bloodBank b)"
      using k by (simp add: col getSortValue_columns not_less)
    show "sortBy params = Some ''status'' \<Longrightarrow> status a \<le> status b"
      using k by (simp add: col getSortValue_columns not_less)
    show "sortBy params = Some ''rider'' \<Longrightarrow>
            (case rider a of None \<Rightarrow> [] | Some r \<Rightarrow> rider_name r)
              \<le> (case rider b of None \<Rightarrow> [] | Some r \<Rightarrow> rider_name r)"
      using k by (simp add: col getSortValue_columns not_less)
    show "sortBy params = Some ''placedAt'' \<Longrightarrow> placedAt a \<le> placedAt b"
      using k by (simp add: col getSortValue_columns not_less)
    show "sortBy params = Some ''deliveredAt'' \<Longrightarrow>
            (case deliveredAt a of None \<Rightarrow> 0 | Some t \<Rightarrow> t)
              \<le> (case deliveredAt b of None \<Rightarrow> 0 | Some t \<Rightarrow> t)"
      using k by (simp add: col getSortValue_columns not_less)
    show "sortBy params = None \<or>
          (\<exists>c. sortBy params = Some c \<and>
             c \<notin> {''id'', ''bloodType'', ''quantity'', ''bloodBank'', ''status'', ''rider'',
                   ''deliveredAt''}) \<Longrightarrow> placedAt a \<le> placedAt b"
      using k by (simp only: other js_lt.simps not_less)
  next
    assume p: "(status a \<in> {''pending'', ''confirmed'', ''in_transit''}) =
               (status b \<in> {''pending'', ''confirmed'', ''in_transit''})"
       and d: "sortOrder params \<noteq> Some ''asc''"
    note k = n(3) [OF p d]
    show "sortBy params = Some ''id'' \<Longrightarrow> order_id b \<le> order_id a"
      using k by (simp add: col getSortValue_columns not_less)
    show "sortBy params = Some ''bloodType'' \<Longrightarrow> bloodType b \<le> bloodType a"
      using k by (simp add: col getSortValue_columns not_less)
    show "sortBy params = Some ''quantity'' \<Longrightarrow> quantity b \<le> quantity a"
      using k by (simp add: col getSortValue_columns not_less)
    show "sortBy params = Some ''bloodBank'' \<Longrightarrow> bb_name (bloodBank b) \<le> bb_name (bloodBank a)"
      using k by (simp add: col getSortValue_columns not_less)
    show "sortBy params = Some ''status'' \<Longrightarrow> status b \<le> status a"
      using k by (simp add: col getSortValue_columns not_less)
    show "sortBy params = Some ''rider'' \<Longrightarrow>
            (case rider b of None \<Rightarrow> [] | Some r \<Rightarrow> rider_name r)
              \<le> (case rider a of None \<Rightarrow> [] | Some r \<Rightarrow> rider_name r)"
      using k by (simp add: col getSortValue_columns not_less)
    show "sortBy params = Some ''placedAt'' \<Longrightarrow> placedAt b \<le> placedAt a"
      using k by (simp add: col getSortValue_columns not_less)
    show "sortBy params = Some ''deliveredAt'' \<Longrightarrow>
            (case deliveredAt b of None \<Rightarrow> 0 | Some t \<Rightarrow> t)
              \<le> (case deliveredAt a of None \<Rightarrow> 0 | Some t \<Rightarrow> t)"
      using k by (simp add: col getSortValue_columns not_less)
    show "sortBy params = None \<or>
          (\<exists>c. sortBy params = Some c \<and>
             c \<notin> {''id'', ''bloodType'', ''quantity'', ''bloodBank'', ''status'', ''rider'',
                   ''deliveredAt''}) \<Longrightarrow> placedAt b \<le> placedAt a"
      using k by (simp only: other js_lt.simps not_less)
  qed
qed

theorem sort_monotonic_witness:
  "data (findAllWithFilters exampleParse exampleLower quantityStore
           ((exampleQuery ''H1'')\<lparr> sortBy := Some ''quantity'', sortOrder := Some ''asc'' \<rparr>))
     = [orderQ4, orderQ1] \<and>
   quantity orderQ4 \<le> quantity orderQ1 \<and>
   data (findAllWithFilters exampleParse exampleLower quantityStore
           ((exampleQuery ''H1'')\<lparr> sortBy := Some ''id'', sortOrder := Some ''desc'' \<rparr>))
     = [orderQ4, orderQ1] \<and>
   order_id orderQ1 \<le> order_id orderQ4 \<and>
   data (findAllWithFilters exampleParse exampleLower quantityStore (exampleQuery ''H1''))
     = [orderQ1, orderQ4] \<and>
   placedAt orderQ4 \<le> placedAt orderQ1"
proof -
  let ?q1 = "(exampleQuery ''H1'')\<lparr> sortBy := Some ''quantity'', sortOrder := Some ''asc'' \<rparr>"
  let ?q2 = "(exampleQuery ''H1'')\<lparr> sortBy := Some ''id'', sortOrder := Some ''desc'' \<rparr>"
  let ?q3 = "exampleQuery ''H1''"
  let ?d1 = "data (findAllWithFilters exampleParse exampleLower quantityStore ?q1)"
  let ?d2 = "data (findAllWithFilters exampleParse exampleLower quantityStore ?q2)"
  let ?d3 = "data (findAllWithFilters exampleParse exampleLower quantityStore ?q3)"
  have d1: "?d1 = [orderQ4, orderQ1]"
    by (simp add: pipeline_defs example_defs quantity_defs)
  have d2: "?d2 = [orderQ4, orderQ1]"
    by (simp add: pipeline_defs example_defs quantity_defs)
  have d3: "?d3 = [orderQ1, orderQ4]"
    by (simp add: pipeline_defs example_defs quantity_defs)
  have l: "Suc 0 < length ?d1" "Suc 0 < length ?d2" "Suc 0 < length ?d3"
    unfolding d1 d2 d3 by simp_all
  have act: "status orderQ1 \<in> {''pending'', ''confirmed'', ''in_transit''}"
    "status orderQ4 \<in> {''pending'', ''confirmed'', ''in_transit''}"
    by (simp_all add: example_defs quantity_defs)
  have q: "sortBy ?q1 = Some ''quantity''" "sortOrder ?q1 = Some ''asc''"
    "sortBy ?q2 = Some ''id''" "sortOrder ?q2 \<noteq> Some ''asc''"
    "sortBy ?q3 = None" "sortOrder ?q3 \<noteq> Some ''asc''"
    by (simp_all add: exampleQuery_def)
  have e: "?d1 ! 0 = orderQ4" "?d1 ! Suc 0 = orderQ1" "?d2 ! 0 = orderQ4" "?d2 ! Suc 0 = orderQ1"
    "?d3 ! 0 = orderQ1" "?d3 ! Suc 0 = orderQ4"
    unfolding d1 d2 d3 by simp_all
  have p: "(status orderQ4 \<in> {''pending'', ''confirmed'', ''in_transit''}) =
           (status orderQ1 \<in> {''pending'', ''confirmed'', ''in_transit''})"
    "(status orderQ1 \<in> {''pending'', ''confirmed'', ''in_transit''}) =
     (status orderQ4 \<in> {''pending'', ''confirmed'', ''in_transit''})"
    using act by (simp_all only:)
  note t1 = sort_monotonic [OF l(1) e(1) [symmetric] e(2) [symmetric]]
  note t2 = sort_monotonic [OF l(2) e(3) [symmetric] e(4) [symmetric]]
  note t3 = sort_monotonic [OF l(3) e(5) [symmetric] e(6) [symmetric]]
  have c1: "quantity orderQ4 \<le> quantity orderQ1"
    by (rule t1 [THEN conjunct2, THEN mp, OF p(1), THEN conjunct1, THEN mp, OF q(2),
          THEN conjunct2, THEN conjunct2, THEN conjunct1, THEN mp, OF q(1)])
  have c2: "order_id orderQ1 \<le> order_id orderQ4"
    by (rule t2 [THEN conjunct2, THEN mp, OF p(1), THEN conjunct2, THEN mp, OF q(4),
          THEN conjunct1, THEN mp, OF q(3)])
  have c3: "placedAt orderQ4 \<le> placedAt orderQ1"
    by (rule t3 [THEN conjunct2, THEN mp, OF p(2), THEN conjunct2, THEN mp, OF q(6),
          THEN conjunct2, THEN conjunct2, THEN conjunct2, THEN conjunct2,
          THEN conjunct2, THEN conjunct2, THEN conjunct2, THEN conjunct2,
          THEN mp, OF disjI1, OF q(5)])
  show ?thesis
    by (intro conjI d1 d2 d3 c1 c2 c3)
qed

subsection \<open>An absent deliveredAt in the sort\<close>

text \<open>
  Claim C8, as stated: sorted by \<open>deliveredAt\<close> ascending, an order without
  \<open>deliveredAt\<close> stands before every order of its partition that has one, whatever that
  timestamp is. The source gives the absent value the key 0, the epoch, so the claim
  fails for a timestamp before 1970: the page below has the delivered order first and
  the order without \<open>deliveredAt\<close> second.
\<close>

theorem absent_deliveredAt_counterexample:
  "data (findAllWithFilters exampleParse exampleLower epochStore
           ((exampleQuery ''H1'')\<lparr> sortBy := Some ''deliveredAt'', sortOrder := Some ''asc'' \<rparr>))
     = [orderE1, orderE2] \<and>
   deliveredAt orderE1 = Some (- 1) \<and> deliveredAt orderE2 = None \<and>
   \<not> isActive orderE1 \<and> \<not> isActive orderE2"
  by (simp add: pipeline_defs example_defs)

text \<open>
  Claim C8, amended: sorted by \<open>deliveredAt\<close> ascending, an order without \<open>deliveredAt\<close>
  has the key 0 and stands before every order of its partition whose \<open>deliveredAt\<close> is
  after the epoch (a positive timestamp).
\<close>

theorem absent_deliveredAt_first:
  assumes "sortBy params = Some ''deliveredAt''" and "sortOrder params = Some ''asc''"
    and "i < length (data (findAllWithFilters parseDate toLower orders' params))"
    and "j < length (data (findAllWithFilters parseDate toLower orders' params))"
    and "isActive (data (findAllWithFilters parseDate toLower orders' params) ! i) =
         isActive (data (findAllWithFilters parseDate toLower orders' params) ! j)"
    and "deliveredAt (data (findAllWithFilters parseDate toLower orders' params) ! i) = None"
    and "deliveredAt (data (findAllWithFilters parseDate toLower orders' params) ! j) = Some t"
    and "0 < t"
  shows "getSortValue (data (findAllWithFilters parseDate toLower orders' params) ! i)
           ''deliveredAt'' = Num 0 \<and> i < j"
proof
  show "getSortValue (data (findAllWithFilters parseDate toLower orders' params) ! i)
          ''deliveredAt'' = Num 0"
    using assms(6) by (simp add: getSortValue_def)
  show "i < j"
  proof (rule ccontr)
    assume "\<not> i < j"
    moreover have "i \<noteq> j" using assms(6,7) by auto
    ultimately have "j < i" by simp
    from data_compare [OF this assms(3)] assms(1,2,5,6,7,8) show False
      by (simp add: compareOrders_le_iff sortByOf_def sortOrderOf_def getSortValue_def)
  qed
qed

theorem absent_deliveredAt_first_witness:
  "data (findAllWithFilters exampleParse exampleLower completedStore
           ((exampleQuery ''H1'')\<lparr> sortBy := Some ''deliveredAt'', sortOrder := Some ''asc'' \<rparr>))
     = [orderO5, orderO2] \<and>
   deliveredAt orderO5 = None \<and> deliveredAt orderO2 = Some 1704070800000 \<and>
   getSortValue orderO5 ''deliveredAt'' = Num 0 \<and> (0::nat) < 1"
proof -
  let ?q = "(exampleQuery ''H1'')\<lparr> sortBy := Some ''deliveredAt'', sortOrder := Some ''asc'' \<rparr>"
  let ?ds = "data (findAllWithFilters exampleParse exampleLower completedStore ?q)"
  have d: "?ds = [orderO5, orderO2]"
    by (simp add: pipeline_defs example_defs)
  have q: "sortBy ?q = Some ''deliveredAt''" "sortOrder ?q = Some ''asc''"
    by simp_all
  have l: "0 < length ?ds" "1 < length ?ds"
    unfolding d by simp_all
  have p: "isActive (?ds ! 0) = isActive (?ds ! 1)"
    unfolding d by (simp add: isActive_def activeStatuses_def example_defs)
  have a: "deliveredAt (?ds ! 0) = None"
    unfolding d by (simp add: example_defs)
  have b: "deliveredAt (?ds ! 1) = Some 1704070800000"
    unfolding d by (simp add: example_defs)
  have t: "(0::int) < 1704070800000" by simp
  from absent_deliveredAt_first [OF q l p a b t] a b show ?thesis
    unfolding d by simp
qed

subsection \<open>Filter conjunction\<close>

text \<open>
  Claim C3. Every order in the page that \<open>findAllWithFilters\<close> returns satisfies every
  filter that is set, all at once: \<open>placedAt\<close> is not before the start date and not after
  the end date, \<open>bloodType\<close> is one of the comma-separated blood types, \<open>status\<close> is one
  of the comma-separated statuses, and the lower-cased name of the blood bank contains the
  lower-cased search text, for whatever \<^verbatim>\<open>toLowerCase\<close> computes. A filter that is
  absent or the empty string asks nothing: the filtered sequence holds exactly the stored
  orders of the hospital that satisfy the filters that are set.
\<close>

theorem filter_conjunction:
  "(order \<in> set (data (findAllWithFilters parseDate toLower orders' params)) \<longrightarrow>
      (\<forall>s. startDate params = Some s \<longrightarrow> s \<noteq> [] \<longrightarrow>
           (\<exists>t. parseDate s = Some t \<and> t \<le> placedAt order)) \<and>
      (\<forall>e. endDate params = Some e \<longrightarrow> e \<noteq> [] \<longrightarrow>
           (\<exists>t. parseDate e = Some t \<and> placedAt order \<le> t)) \<and>
      (\<forall>bs. bloodTypes params = Some bs \<longrightarrow> bs \<noteq> [] \<longrightarrow>
           bloodType order \<in> set (split CHR '','' bs)) \<and>
      (\<forall>ss. statuses params = Some ss \<longrightarrow> ss \<noteq> [] \<longrightarrow>
           status order \<in> set (split CHR '','' ss)) \<and>
      (\<forall>q. bloodBankSearch params = Some q \<longrightarrow> q \<noteq> [] \<longrightarrow>
           (\<exists>pre suf. toLower (bb_name (bloodBank order)) = pre @ toLower q @ suf))) \<and>
   (order \<in> set (filteredSorted parseDate toLower orders' params) \<longleftrightarrow>
      order \<in> set orders' \<and>
      hosp_id (hospital order) = hospitalId params \<and>
      (\<forall>s. startDate params = Some s \<longrightarrow> s \<noteq> [] \<longrightarrow>
           (\<exists>t. parseDate s = Some t \<and> t \<le> placedAt order)) \<and>
      (\<forall>e. endDate params = Some e \<longrightarrow> e \<noteq> [] \<longrightarrow>
           (\<exists>t. parseDate e = Some t \<and> placedAt order \<le> t)) \<and>
      (\<forall>bs. bloodTypes params = Some bs \<longrightarrow> bs \<noteq> [] \<longrightarrow>
           bloodType order \<in> set (split CHR '','' bs)) \<and>
      (\<forall>ss. statuses params = Some ss \<longrightarrow> ss \<noteq> [] \<longrightarrow>
           status order \<in> set (split CHR '','' ss)) \<and>
      (\<forall>q. bloodBankSearch params = Some q \<longrightarrow> q \<noteq> [] \<longrightarrow>
           (\<exists>pre suf. toLower (bb_name (bloodBank order)) = pre @ toLower q @ suf)))"
proof -
  have fs: "set (filteredSorted parseDate toLower orders' params) = set (filterOrders parseDate toLower orders' params)"
    by (simp add: filteredSorted_def set_sort')
  have sub: "order \<in> set (data (findAllWithFilters parseDate toLower orders' params)) \<Longrightarrow>
             order \<in> set (filterOrders parseDate toLower orders' params)"
    using data_subset_filteredSorted [of parseDate toLower orders' params] fs by blast
  show ?thesis
    using sub unfolding fs set_filterOrders by blast
qed

theorem filter_conjunction_witness:
  "orderO1 \<in> set (data (findAllWithFilters exampleParse exampleLower exampleStore filterQuery)) \<and>
   orderO2 \<notin> set (filteredSorted exampleParse exampleLower exampleStore filterQuery) \<and>
   exampleParse ''2024-01-01'' = Some 1704067200000 \<and> 1704067200000 \<le> placedAt orderO1 \<and>
   exampleParse ''2024-01-02'' = Some 1704153600000 \<and> placedAt orderO1 \<le> 1704153600000 \<and>
   bloodType orderO1 \<in> set (split CHR '','' ''A+,O-'') \<and>
   status orderO1 \<in> set (split CHR '','' ''pending,confirmed'') \<and>
   status orderO2 \<notin> set (split CHR '','' ''pending,confirmed'') \<and>
   exampleLower (bb_name (bloodBank orderO1)) = ''central '' @ exampleLower ''BLOOD'' @ '' bank''"
proof -
  have m: "orderO1 \<in> set (data (findAllWithFilters exampleParse exampleLower exampleStore filterQuery))"
    by (simp add: pipeline_defs example_defs filterQuery_def date_ge_def date_le_def
        exampleLower_examples)
  have n: "status orderO2 \<notin> set (split CHR '','' ''pending,confirmed'')"
    by (simp add: example_defs)
  have q: "statuses filterQuery = Some ''pending,confirmed''"
    by (simp add: filterQuery_def exampleQuery_def)
  from filter_conjunction [of orderO2 exampleParse exampleLower exampleStore filterQuery] n q
  have o2: "orderO2 \<notin> set (filteredSorted exampleParse exampleLower exampleStore filterQuery)"
    by auto
  have c: "exampleParse ''2024-01-01'' = Some 1704067200000 \<and> 1704067200000 \<le> placedAt orderO1 \<and>
   exampleParse ''2024-01-02'' = Some 1704153600000 \<and> placedAt orderO1 \<le> 1704153600000 \<and>
   bloodType orderO1 \<in> set (split CHR '','' ''A+,O-'') \<and>
   status orderO1 \<in> set (split CHR '','' ''pending,confirmed'') \<and>
   exampleLower (bb_name (bloodBank orderO1)) = ''central '' @ exampleLower ''BLOOD'' @ '' bank''"
    by (simp add: example_defs exampleLower_examples)
  from m n o2 c show ?thesis by blast
qed

subsection \<open>Pagination\<close>

text \<open>
  Claim C4. For a requested page number \<open>n \<ge> 1\<close> and a requested positive page size
  \<open>p\<close>, \<open>data\<close> is the slice of the filtered and sorted sequence of length \<open>L\<close> from
  index \<open>(n - 1) * p\<close> up to \<open>min (n * p) L\<close>. A page beyond the sequence is the empty
  list and no error, and \<open>totalCount\<close> and \<open>totalPages\<close> are still those of the whole
  filtered sequence.
\<close>

theorem pagination_slice:
  assumes "page params = Some n" and "pageSize params = Some p"
    and "1 \<le> n" and "0 < p"
  shows "data (findAllWithFilters parseDate toLower orders' params) =
           map (\<lambda>k. filteredSorted parseDate toLower orders' params ! k)
             [nat ((n - 1) * p) ..<
              nat (min (n * p) (int (length (filteredSorted parseDate toLower orders' params))))] \<and>
         (int (length (filteredSorted parseDate toLower orders' params)) \<le> (n - 1) * p \<longrightarrow>
          data (findAllWithFilters parseDate toLower orders' params) = []) \<and>
         totalCount (pagination (findAllWithFilters parseDate toLower orders' params)) =
           int (length (filteredSorted parseDate toLower orders' params)) \<and>
         totalPages (pagination (findAllWithFilters parseDate toLower orders' params)) =
           Finite \<lceil>real (length (filteredSorted parseDate toLower orders' params)) /
                   real_of_int p\<rceil>"
proof -
  have v: "pageOf params = n" "pageSizeOf params = p"
    using assms(1,2) by (simp_all add: pageOf_def pageSizeOf_def)
  have "1 \<le> pageOf params" and "0 < pageSizeOf params"
    using assms(3,4) by (simp_all only: v)
  from findAllWithFilters_slice [OF this, of parseDate toLower orders', unfolded v]
  show ?thesis .
qed

theorem pagination_slice_witness:
  "data (findAllWithFilters exampleParse exampleLower exampleStore
           ((exampleQuery ''H1'')\<lparr> page := Some 2, pageSize := Some 2 \<rparr>)) = [orderO2] \<and>
   totalCount (pagination (findAllWithFilters exampleParse exampleLower exampleStore
           ((exampleQuery ''H1'')\<lparr> page := Some 2, pageSize := Some 2 \<rparr>))) = 3 \<and>
   totalPages (pagination (findAllWithFilters exampleParse exampleLower exampleStore
           ((exampleQuery ''H1'')\<lparr> page := Some 2, pageSize := Some 2 \<rparr>))) = Finite 2 \<and>
   data (findAllWithFilters exampleParse exampleLower exampleStore
           ((exampleQuery ''H1'')\<lparr> page := Some 2, pageSize := Some 50 \<rparr>)) = [] \<and>
   totalCount (pagination (findAllWithFilters exampleParse exampleLower exampleStore
           ((exampleQuery ''H1'')\<lparr> page := Some 2, pageSize := Some 50 \<rparr>))) = 3 \<and>
   totalPages (pagination (findAllWithFilters exampleParse exampleLower exampleStore
           ((exampleQuery ''H1'')\<lparr> page := Some 2, pageSize := Some 50 \<rparr>))) = Finite 1"
proof -
  let ?q = "(exampleQuery ''H1'')\<lparr> page := Some 2, pageSize := Some 2 \<rparr>"
  let ?r = "(exampleQuery ''H1'')\<lparr> page := Some 2, pageSize := Some 50 \<rparr>"
  have fq: "filteredSorted exampleParse exampleLower exampleStore ?q = [orderO1, orderO4, orderO2]"
    by (simp add: pipeline_defs example_defs)
  have fr: "filteredSorted exampleParse exampleLower exampleStore ?r = [orderO1, orderO4, orderO2]"
    by (simp add: pipeline_defs example_defs)
  have q: "page ?q = Some 2" "pageSize ?q = Some 2" "(1::int) \<le> 2" "(0::int) < 2"
    by simp_all
  have r: "page ?r = Some 2" "pageSize ?r = Some 50" "(1::int) \<le> 2" "(0::int) < 50"
    by simp_all
  from pagination_slice [OF q, of exampleParse exampleLower exampleStore]
       pagination_slice [OF r, of exampleParse exampleLower exampleStore]
  show ?thesis
    unfolding fq fr by (simp add: upt_conv_Cons)
qed

text \<open>
  Claim C9. The result of \<open>findAllWithFilters\<close> has
  \<open>totalPages = \<lceil>totalCount / pageSize\<rceil>\<close>, which for a positive page size is the least
  number of pages that hold \<open>totalCount\<close> orders; when \<open>totalCount\<close> is 0, \<open>totalPages\<close> is 0
  and \<open>data\<close> is empty. The page size is not 0: the quotient is not a number otherwise.
\<close>

theorem total_pages:
  assumes "pageSizeOf params \<noteq> 0"
  shows "totalPages (pagination (findAllWithFilters parseDate toLower orders' params)) =
           Finite \<lceil>real_of_int (totalCount (pagination (findAllWithFilters parseDate toLower orders' params))) /
                   real_of_int (pageSize' (pagination (findAllWithFilters parseDate toLower orders' params)))\<rceil> \<and>
         (0 < pageSizeOf params \<longrightarrow>
           (\<exists>n. totalPages (pagination (findAllWithFilters parseDate toLower orders' params)) = Finite n \<and>
                (n - 1) * pageSize' (pagination (findAllWithFilters parseDate toLower orders' params))
                  < totalCount (pagination (findAllWithFilters parseDate toLower orders' params)) \<and>
                totalCount (pagination (findAllWithFilters parseDate toLower orders' params))
                  \<le> n * pageSize' (pagination (findAllWithFilters parseDate toLower orders' params)))) \<and>
         (totalCount (pagination (findAllWithFilters parseDate toLower orders' params)) = 0 \<longrightarrow>
            totalPages (pagination (findAllWithFilters parseDate toLower orders' params)) = Finite 0 \<and>
            data (findAllWithFilters parseDate toLower orders' params) = [])"
proof -
  let ?r = "findAllWithFilters parseDate toLower orders' params"
  let ?fs = "filteredSorted parseDate toLower orders' params"
  have tc: "totalCount (pagination ?r) = int (length ?fs)"
    and ps: "pageSize' (pagination ?r) = pageSizeOf params"
    and tp: "totalPages (pagination ?r) = Finite \<lceil>real_of_int (int (length ?fs)) / real_of_int (pageSizeOf params)\<rceil>"
    using assms by (simp_all add: findAllWithFilters_def Let_def ceilDiv_def)
  have one: "totalPages (pagination ?r) =
      Finite \<lceil>real_of_int (totalCount (pagination ?r)) / real_of_int (pageSize' (pagination ?r))\<rceil>"
    by (simp only: tc ps tp)
  have two: "\<exists>n. totalPages (pagination ?r) = Finite n \<and>
      (n - 1) * pageSize' (pagination ?r) < totalCount (pagination ?r) \<and>
      totalCount (pagination ?r) \<le> n * pageSize' (pagination ?r)" if "0 < pageSizeOf params"
    using ceiling_bounds [OF that, of "int (length ?fs)"] unfolding tc ps tp by blast
  have three: "totalPages (pagination ?r) = Finite 0 \<and> data ?r = []" if "totalCount (pagination ?r) = 0"
  proof -
    from that tc have "?fs = []" by simp
    then show ?thesis using assms by (simp add: findAllWithFilters_def Let_def ceilDiv_def slice_Nil)
  qed
  from one two three show ?thesis by blast
qed

theorem total_pages_witness:
  "totalCount (pagination (findAllWithFilters exampleParse exampleLower exampleStore (exampleQuery ''H9''))) = 0 \<and>
   totalPages (pagination (findAllWithFilters exampleParse exampleLower exampleStore (exampleQuery ''H9'')))
     = Finite 0 \<and>
   data (findAllWithFilters exampleParse exampleLower exampleStore (exampleQuery ''H9'')) = [] \<and>
   pageSize' (pagination (findAllWithFilters exampleParse exampleLower exampleStore (exampleQuery ''H9''))) = 25 \<and>
   totalCount (pagination (findAllWithFilters exampleParse exampleLower exampleStore (exampleQuery ''H1''))) = 3 \<and>
   totalPages (pagination (findAllWithFilters exampleParse exampleLower exampleStore (exampleQuery ''H1'')))
     = Finite 1"
proof -
  have p: "pageSizeOf (exampleQuery ''H9'') \<noteq> 0" "pageSizeOf (exampleQuery ''H1'') \<noteq> 0"
    by (simp_all add: pageSizeOf_def exampleQuery_def)
  have c: "totalCount (pagination (findAllWithFilters exampleParse exampleLower exampleStore (exampleQuery ''H9''))) = 0"
    "pageSize' (pagination (findAllWithFilters exampleParse exampleLower exampleStore (exampleQuery ''H9''))) = 25"
    "totalCount (pagination (findAllWithFilters exampleParse exampleLower exampleStore (exampleQuery ''H1''))) = 3"
    "pageSize' (pagination (findAllWithFilters exampleParse exampleLower exampleStore (exampleQuery ''H1''))) = 25"
    by (simp_all add: pipeline_defs example_defs length_sort')
  from total_pages [OF p(1), of exampleParse exampleLower exampleStore]
       total_pages [OF p(2), of exampleParse exampleLower exampleStore] c
  show ?thesis by simp
qed

subsection \<open>Validation\<close>

text \<open>
  Claim C6. A request with a page size outside 25, 50, 100, or a page below 1, or a start
  date after the end date, or a sort column the service does not know, is answered by
  the controller with a \<open>BadRequestException\<close>: the service is not called and no page is
  computed. The check of the date range is the controller's own code; the other three
  checks are those of \<open>validateDto\<close>.
\<close>

theorem invalid_request_rejected:
  assumes "(\<exists>n. pageSize params = Some n \<and> n \<notin> {25, 50, 100}) \<or>
           (\<exists>n. page params = Some n \<and> n < 1) \<or>
           (\<exists>s e ts te. startDate params = Some s \<and> endDate params = Some e \<and>
              s \<noteq> [] \<and> e \<noteq> [] \<and>
              parseDate s = Some ts \<and> parseDate e = Some te \<and> te < ts) \<or>
           (\<exists>c. sortBy params = Some c \<and> c \<notin> set sortColumns)"
  shows "\<exists>msg fields. getOrders parseDate toLower orders' params = Inl (BadRequestException msg fields)"
proof (cases "validateDto params = []")
  case False
  then show ?thesis by (simp add: getOrders_def Let_def)
next
  case True
  then have "\<not> (\<exists>n. pageSize params = Some n \<and> n \<notin> {25, 50, 100})"
    and "\<not> (\<exists>n. page params = Some n \<and> n < 1)"
    and "\<not> (\<exists>c. sortBy params = Some c \<and> c \<notin> set sortColumns)"
    by (auto simp: validateDto_def split: option.splits if_splits)
  with assms obtain s e ts te where "startDate params = Some s" "endDate params = Some e"
    "s \<noteq> []" "e \<noteq> []" "parseDate s = Some ts" "parseDate e = Some te" "te < ts"
    by blast
  with True show ?thesis by (simp add: getOrders_def Let_def date_gt_def)
qed

theorem invalid_request_rejected_witness:
  "getOrders exampleParse exampleLower exampleStore ((exampleQuery ''H1'')\<lparr> pageSize := Some 10 \<rparr>)
     = Inl (BadRequestException ''Invalid query parameters'' [''pageSize'']) \<and>
   getOrders exampleParse exampleLower exampleStore ((exampleQuery ''H1'')\<lparr> page := Some 0 \<rparr>)
     = Inl (BadRequestException ''Invalid query parameters'' [''page'']) \<and>
   getOrders exampleParse exampleLower exampleStore ((exampleQuery ''H1'')\<lparr> sortBy := Some ''price'' \<rparr>)
     = Inl (BadRequestException ''Invalid query parameters'' [''sortBy'']) \<and>
   getOrders exampleParse exampleLower exampleStore
       ((exampleQuery ''H1'')\<lparr> startDate := Some ''2024-01-02'', endDate := Some ''2024-01-01'' \<rparr>)
     = Inl (BadRequestException ''startDate must be before or equal to endDate'' [])"
proof -
  let ?q1 = "(exampleQuery ''H1'')\<lparr> pageSize := Some 10 \<rparr>"
  let ?q4 = "(exampleQuery ''H1'')\<lparr> startDate := Some ''2024-01-02'', endDate := Some ''2024-01-01'' \<rparr>"
  have h1: "(\<exists>n. pageSize ?q1 = Some n \<and> n \<notin> {25, 50, 100}) \<or>
           (\<exists>n. page ?q1 = Some n \<and> n < 1) \<or>
           (\<exists>s e ts te. startDate ?q1 = Some s \<and> endDate ?q1 = Some e \<and>
              s \<noteq> [] \<and> e \<noteq> [] \<and>
              exampleParse s = Some ts \<and> exampleParse e = Some te \<and> te < ts) \<or>
           (\<exists>c. sortBy ?q1 = Some c \<and> c \<notin> set sortColumns)"
    by simp
  have "exampleParse ''2024-01-02'' = Some 1704153600000 \<and>
        exampleParse ''2024-01-01'' = Some 1704067200000 \<and> (1704067200000::int) < 1704153600000"
    by (simp add: exampleParse_def)
  then have h4: "(\<exists>n. pageSize ?q4 = Some n \<and> n \<notin> {25, 50, 100}) \<or>
           (\<exists>n. page ?q4 = Some n \<and> n < 1) \<or>
           (\<exists>s e ts te. startDate ?q4 = Some s \<and> endDate ?q4 = Some e \<and>
              s \<noteq> [] \<and> e \<noteq> [] \<and>
              exampleParse s = Some ts \<and> exampleParse e = Some te \<and> te < ts) \<or>
           (\<exists>c. sortBy ?q4 = Some c \<and> c \<notin> set sortColumns)"
    by simp
  from invalid_request_rejected [OF h1, of exampleLower exampleStore]
       invalid_request_rejected [OF h4, of exampleLower exampleStore]
  show ?thesis
    by (simp add: getOrders_def validateDto_def sortColumns_def exampleQuery_def
        exampleParse_def date_gt_def Let_def)
qed

subsection \<open>Status updates\<close>

text \<open>
  Claim C7, as stated: when \<open>updateStatus\<close> moves a stored order to the status delivered
  (confirmed, cancelled), the order's \<open>deliveredAt\<close> (\<open>confirmedAt\<close>, \<open>cancelledAt\<close>) is set.
  The source copies the order and replaces \<open>status\<close> and \<open>updatedAt\<close> only: a pending
  order without \<open>deliveredAt\<close> is delivered afterwards and still has none.
\<close>

theorem deliveredAt_not_set_counterexample:
  "map (\<lambda>order. (order_id order, status order, deliveredAt order, updatedAt order))
     (orders (snd (updateStatus 1704240000000 ''O1'' ''delivered''
                     \<lparr> orders = [orderO1], emitted = [] \<rparr>)))
     = [(''O1'', ''delivered'', None, 1704240000000)] \<and>
   status orderO1 = ''pending'' \<and> deliveredAt orderO1 = None"
  by (simp add: updateStatus_def Let_def example_defs)

text \<open>
  Claim C7, amended: \<open>updateStatus\<close> gives the first stored order with the id the new
  status and the time of the call as \<open>updatedAt\<close>; \<open>deliveredAt\<close>, \<open>confirmedAt\<close> and
  \<open>cancelledAt\<close> of every stored order keep the values they had before the call.
\<close>

theorem updateStatus_timestamps:
  "map deliveredAt (orders (snd (updateStatus now id' status' svc))) =
     map deliveredAt (orders svc) \<and>
   map confirmedAt (orders (snd (updateStatus now id' status' svc))) =
     map confirmedAt (orders svc) \<and>
   map cancelledAt (orders (snd (updateStatus now id' status' svc))) =
     map cancelledAt (orders svc) \<and>
   (id' \<in> order_id ` set (orders svc) \<longrightarrow>
      (\<exists>i < length (orders svc).
         order_id (orders svc ! i) = id' \<and>
         status (orders (snd (updateStatus now id' status' svc)) ! i) = status' \<and>
         updatedAt (orders (snd (updateStatus now id' status' svc)) ! i) = now))"
proof (cases "findIndex (\<lambda>order. order_id order = id') (orders svc)")
  case None
  then have "id' \<notin> order_id ` set (orders svc)"
    by (auto simp: findIndex_None_iff)
  then show ?thesis by (simp add: updateStatus_absent [OF None])
next
  case (Some i)
  from findIndex_Some [OF Some] have l: "i < length (orders svc)"
    and m: "order_id (orders svc ! i) = id'" by simp_all
  have "map deliveredAt (orders (snd (updateStatus now id' status' svc))) =
          map deliveredAt (orders svc)"
    and "map confirmedAt (orders (snd (updateStatus now id' status' svc))) =
          map confirmedAt (orders svc)"
    and "map cancelledAt (orders (snd (updateStatus now id' status' svc))) =
          map cancelledAt (orders svc)"
    using l by (simp_all add: updateStatus_present(1) [OF Some] map_update map_update_same)
  moreover have "\<exists>i < length (orders svc).
         order_id (orders svc ! i) = id' \<and>
         status (orders (snd (updateStatus now id' status' svc)) ! i) = status' \<and>
         updatedAt (orders (snd (updateStatus now id' status' svc)) ! i) = now"
    using l m by (intro exI [of _ i]) (simp add: updateStatus_present(1) [OF Some])
  ultimately show ?thesis by blast
qed

theorem updateStatus_timestamps_witness:
  "map deliveredAt (orders (snd (updateStatus 1704240000000 ''O1'' ''delivered'' exampleService)))
     = [Some 1704070800000, None, None, None] \<and>
   map status (orders (snd (updateStatus 1704240000000 ''O1'' ''delivered'' exampleService)))
     = [''delivered'', ''confirmed'', ''delivered'', ''pending'']"
proof -
  have b: "''O1'' \<in> order_id ` set (orders exampleService)"
    by (simp add: exampleService_def example_defs)
  have d: "map deliveredAt (orders exampleService) = [Some 1704070800000, None, None, None]"
    by (simp add: exampleService_def example_defs)
  have s: "map status (orders (snd (updateStatus 1704240000000 ''O1'' ''delivered'' exampleService)))
     = [''delivered'', ''confirmed'', ''delivered'', ''pending'']"
    by (simp add: updateStatus_def exampleService_def example_defs Let_def)
  from updateStatus_timestamps [of 1704240000000 "''O1''" "''delivered''" exampleService] b d s
  show ?thesis by simp
qed

text \<open>
  Claim C10. For an id that no stored order has, \<open>updateStatus\<close> leaves the service
  state as it was (the orders and the emitted events), and still answers with the message
  of success. For an id that is present, one order with that id gets the new \<open>status\<close>
  and \<open>updatedAt\<close> and keeps every other field, and every other order stays as it was.
\<close>

theorem updateStatus_effect:
  "(id' \<notin> order_id ` set (orders svc) \<longrightarrow>
      snd (updateStatus now id' status' svc) = svc \<and>
      orders (snd (updateStatus now id' status' svc)) = orders svc \<and>
      emitted (snd (updateStatus now id' status' svc)) = emitted svc \<and>
      message (fst (updateStatus now id' status' svc)) = ''Order status updated successfully'') \<and>
   (id' \<in> order_id ` set (orders svc) \<longrightarrow>
      (\<exists>i < length (orders svc).
         order_id (orders svc ! i) = id' \<and>
         length (orders (snd (updateStatus now id' status' svc))) = length (orders svc) \<and>
         orders (snd (updateStatus now id' status' svc)) ! i =
           (orders svc ! i)\<lparr> status := status', updatedAt := now \<rparr> \<and>
         (\<forall>j < length (orders svc). j \<noteq> i \<longrightarrow>
            orders (snd (updateStatus now id' status' svc)) ! j = orders svc ! j)))"
proof (intro conjI impI)
  assume a: "id' \<notin> order_id ` set (orders svc)"
  then have n: "findIndex (\<lambda>order. order_id order = id') (orders svc) = None"
    by (auto simp: findIndex_None_iff)
  show "snd (updateStatus now id' status' svc) = svc"
    and "orders (snd (updateStatus now id' status' svc)) = orders svc"
    and "emitted (snd (updateStatus now id' status' svc)) = emitted svc"
    and "message (fst (updateStatus now id' status' svc)) = ''Order status updated successfully''"
    by (simp_all add: updateStatus_absent [OF n])
next
  assume "id' \<in> order_id ` set (orders svc)"
  then have "findIndex (\<lambda>order. order_id order = id') (orders svc) \<noteq> None"
    by (auto simp: findIndex_None_iff)
  then obtain i where i: "findIndex (\<lambda>order. order_id order = id') (orders svc) = Some i"
    by auto
  from findIndex_Some [OF i] have l: "i < length (orders svc)"
    and m: "order_id (orders svc ! i) = id'" by simp_all
  from l m show "\<exists>i < length (orders svc).
         order_id (orders svc ! i) = id' \<and>
         length (orders (snd (updateStatus now id' status' svc))) = length (orders svc) \<and>
         orders (snd (updateStatus now id' status' svc)) ! i =
           (orders svc ! i)\<lparr> status := status', updatedAt := now \<rparr> \<and>
         (\<forall>j < length (orders svc). j \<noteq> i \<longrightarrow>
            orders (snd (updateStatus now id' status' svc)) ! j = orders svc ! j)"
    by (intro exI [of _ i]) (simp add: updateStatus_present(1) [OF i])
qed

theorem updateStatus_effect_witness:
  "snd (updateStatus 1704240000000 ''O9'' ''delivered'' exampleService) = exampleService \<and>
   message (fst (updateStatus 1704240000000 ''O9'' ''delivered'' exampleService))
     = ''Order status updated successfully'' \<and>
   orders (snd (updateStatus 1704240000000 ''O1'' ''delivered'' exampleService))
     = [orderO2, orderO4, orderO1\<lparr> status := ''delivered'', updatedAt := 1704240000000 \<rparr>,
        orderO3]"
proof -
  have a: "''O9'' \<notin> order_id ` set (orders exampleService)"
    by (simp add: exampleService_def example_defs)
  have b: "''O1'' \<in> order_id ` set (orders exampleService)"
    by (simp add: exampleService_def example_defs)
  have c: "orders (snd (updateStatus 1704240000000 ''O1'' ''delivered'' exampleService))
     = [orderO2, orderO4, orderO1\<lparr> status := ''delivered'', updatedAt := 1704240000000 \<rparr>,
        orderO3]"
    by (simp add: updateStatus_def exampleService_def example_defs Let_def)
  from updateStatus_effect [of "''O9''" exampleService 1704240000000 "''delivered''"] a
  have "snd (updateStatus 1704240000000 ''O9'' ''delivered'' exampleService) = exampleService \<and>
   message (fst (updateStatus 1704240000000 ''O9'' ''delivered'' exampleService))
     = ''Order status updated successfully''" by blast
  moreover
  from updateStatus_effect [of "''O1''" exampleService 1704240000000 "''delivered''"] b
  have "\<exists>i < length (orders exampleService). order_id (orders exampleService ! i) = ''O1''"
    by blast
  ultimately show ?thesis using c by blast
qed

end
